theory Spec2Isabelle
  imports Complex_Main
begin

section \<open>Python strings\<close>

text \<open>
  A Python \<open>str\<close> is modelled as a \<open>string\<close>: a list of characters, each character a code
  point below 256. The operations below are the ones the program and the URL library use,
  written as Python evaluates them on such strings.
\<close>

definition startswith :: "string \<Rightarrow> string \<Rightarrow> bool" where
  "startswith s p = (take (length p) s = p)"

text \<open>\<open>sub in s\<close>: the substring test.\<close>

fun contains :: "string \<Rightarrow> string \<Rightarrow> bool" where
  "contains [] sub = (sub = [])"
| "contains (c # s) sub = (startswith (c # s) sub \<or> contains s sub)"

text \<open>
  \<open>str.lower()\<close> on code points below 256: the ASCII capitals and the Latin-1 capitals
  (U+00C0 to U+00DE without the multiplication sign U+00D7) move up by 32.
\<close>

definition lower_char :: "char \<Rightarrow> char" where
  "lower_char c =
     (let n = (of_char c :: nat)
      in if (65 \<le> n \<and> n \<le> 90) \<or> (192 \<le> n \<and> n \<le> 222 \<and> n \<noteq> 215)
         then char_of (n + 32) else c)"

definition lower :: "string \<Rightarrow> string" where
  "lower s = map lower_char s"

text \<open>\<open>c.isascii() and c.isalpha()\<close>.\<close>

definition isascii_isalpha :: "char \<Rightarrow> bool" where
  "isascii_isalpha c =
     (let n = (of_char c :: nat) in (65 \<le> n \<and> n \<le> 90) \<or> (97 \<le> n \<and> n \<le> 122))"

definition lstrip :: "string \<Rightarrow> string \<Rightarrow> string" where
  "lstrip s chars = dropWhile (\<lambda>c. c \<in> set chars) s"

definition rstrip :: "string \<Rightarrow> string \<Rightarrow> string" where
  "rstrip s chars = rev (dropWhile (\<lambda>c. c \<in> set chars) (rev s))"

definition strip :: "string \<Rightarrow> string \<Rightarrow> string" where
  "strip s chars = rstrip (lstrip s chars) chars"

text \<open>\<open>s.replace(b, "")\<close> for a one-character \<open>b\<close>.\<close>

definition remove_char :: "string \<Rightarrow> char \<Rightarrow> string" where
  "remove_char s b = filter (\<lambda>c. c \<noteq> b) s"

text \<open>
  \<open>s.split(c, 1)\<close> for a \<open>c\<close> that occurs in \<open>s\<close>, and the two halves around the first
  occurrence of a character in general: \<open>s[:i]\<close> and \<open>s[i+1:]\<close> for \<open>i = s.find(c)\<close>.
\<close>

definition before :: "char \<Rightarrow> string \<Rightarrow> string" where
  "before c s = takeWhile (\<lambda>x. x \<noteq> c) s"

definition after :: "char \<Rightarrow> string \<Rightarrow> string" where
  "after c s = tl (dropWhile (\<lambda>x. x \<noteq> c) s)"

text \<open>\<open>s.split(c)\<close>: never the empty list.\<close>

fun split :: "string \<Rightarrow> char \<Rightarrow> string list" where
  "split [] c = [[]]"
| "split (x # s) c =
     (if x = c then [] # split s c
      else (x # hd (split s c)) # tl (split s c))"

text \<open>\<open>c.join(parts)\<close>.\<close>

fun join :: "char \<Rightarrow> string list \<Rightarrow> string" where
  "join c [] = []"
| "join c [p] = p"
| "join c (p # q # ps) = p @ c # join c (q # ps)"

section \<open>Exceptions\<close>

text \<open>
  Every exception the program can meet is a subclass of \<open>Exception\<close>. The program tells
  \<open>DocumentNotFoundException\<close> from the rest; \<open>ValueError\<close> is what the URL library raises,
  \<open>IndexError\<close> what indexing an empty list raises, and \<open>Error\<close> stands for any other
  exception of an external service (connectivity, authentication, a crashed browser) with
  its message.
\<close>

datatype exn =
    DocumentNotFoundException
  | ValueError string
  | IndexError
  | Error string

section \<open>The URL library: \<open>urllib.parse\<close> of CPython 3.11\<close>

text \<open>
  The program resolves links with \<open>urljoin\<close> and computes its base URL with \<open>urlparse\<close>.
  Both are translated here from \<open>urllib/parse.py\<close>, for \<open>str\<close> arguments and
  \<open>allow_fragments=True\<close>. Two checks of the library are not translated:
  \<open>_checknetloc\<close>, which only raises on characters whose NFKC normal form contains one of
  \<open>/?#@:\<close> (no code point below 256 is one), and \<open>_check_bracketed_host\<close>, the syntax check
  of an IPv6 or IPvFuture literal between brackets, which is a parameter \<open>chk\<close> of the
  functions that reach it (\<open>chk h\<close> holds when the library accepts the host \<open>h\<close>; a
  host it rejects raises a \<open>ValueError\<close>, whose message is not modelled).
\<close>

definition uses_relative :: "string list" where
  "uses_relative = ['''', ''ftp'', ''http'', ''gopher'', ''nntp'', ''imap'',
                    ''wais'', ''file'', ''https'', ''shttp'', ''mms'',
                    ''prospero'', ''rtsp'', ''rtsps'', ''rtspu'', ''sftp'',
                    ''svn'', ''svn+ssh'', ''ws'', ''wss'']"

definition uses_netloc :: "string list" where
  "uses_netloc = ['''', ''ftp'', ''http'', ''gopher'', ''nntp'', ''telnet'',
                  ''imap'', ''wais'', ''file'', ''mms'', ''https'', ''shttp'',
                  ''snews'', ''prospero'', ''rtsp'', ''rtsps'', ''rtspu'', ''rsync'',
                  ''svn'', ''svn+ssh'', ''sftp'', ''nfs'', ''git'', ''git+ssh'',
                  ''ws'', ''wss'', ''itms-services'']"

definition uses_params :: "string list" where
  "uses_params = ['''', ''ftp'', ''hdl'', ''prospero'', ''http'', ''imap'',
                  ''https'', ''shttp'', ''rtsp'', ''rtsps'', ''rtspu'', ''sip'',
                  ''sips'', ''mms'', ''sftp'', ''tel'']"

definition scheme_chars :: string where
  "scheme_chars = ''abcdefghijklmnopqrstuvwxyz'' @ ''ABCDEFGHIJKLMNOPQRSTUVWXYZ''
                  @ ''0123456789'' @ ''+-.''"

text \<open>The code points 0 to 32: the C0 controls and the space.\<close>

definition WHATWG_C0_CONTROL_OR_SPACE :: string where
  "WHATWG_C0_CONTROL_OR_SPACE = map char_of [0 ..< (33::nat)]"

definition UNSAFE_URL_BYTES_TO_REMOVE :: string where
  "UNSAFE_URL_BYTES_TO_REMOVE = [CHR 0x09, CHR 0x0D, CHR 0x0A]"

text \<open>
  \<open>_splitparams(url)\<close>: the parameters start at the first \<open>;\<close> of the last path segment.
  \<open>url.find(';', url.rfind('/'))\<close> searches from the last slash on.
\<close>

definition splitparams :: "string \<Rightarrow> string \<times> string" where
  "splitparams url =
     (if CHR ''/'' \<in> set url then
        (let last_seg = rev (takeWhile (\<lambda>c. c \<noteq> CHR ''/'') (rev url));
             front = take (length url - length last_seg) url
         in if CHR '';'' \<notin> set last_seg then (url, [])
            else (front @ before (CHR '';'') last_seg, after (CHR '';'') last_seg))
      else (before (CHR '';'') url, after (CHR '';'') url))"

text \<open>
  \<open>_splitnetloc(url, 2)\<close>: the network location runs from index 2 to the first of
  \<open>/\<close>, \<open>?\<close>, \<open>#\<close> after it, or to the end.
\<close>

definition splitnetloc :: "string \<Rightarrow> string \<times> string" where
  "splitnetloc url =
     (takeWhile (\<lambda>c. c \<notin> set ''/?#'') (drop 2 url),
      dropWhile (\<lambda>c. c \<notin> set ''/?#'') (drop 2 url))"

text \<open>
  The scheme of \<open>urlsplit\<close>: \<open>i = url.find(':')\<close>, and the text before it is a scheme when
  \<open>i > 0\<close>, the first character is an ASCII letter and all of it is in \<open>scheme_chars\<close>.
\<close>

definition has_scheme :: "string \<Rightarrow> bool" where
  "has_scheme url =
     (CHR '':'' \<in> set url \<and> before (CHR '':'') url \<noteq> [] \<and> isascii_isalpha (hd url)
      \<and> list_all (\<lambda>c. c \<in> set scheme_chars) (before (CHR '':'') url))"

text \<open>The fragment and query of \<open>urlsplit\<close>, split off the rest in this order.\<close>

definition split_fragment_query :: "string \<Rightarrow> string \<times> string \<times> string" where
  "split_fragment_query url0 =
     (let (url, fragment) =
            (if CHR ''#'' \<in> set url0 then (before (CHR ''#'') url0, after (CHR ''#'') url0)
             else (url0, []));
          (url, query) =
            (if CHR ''?'' \<in> set url then (before (CHR ''?'') url, after (CHR ''?'') url)
             else (url, []))
      in (url, query, fragment))"

text \<open>\<open>urlsplit(url, scheme)\<close>: scheme, netloc, path, query, fragment, or a \<open>ValueError\<close>.\<close>

definition urlsplit ::
  "(string \<Rightarrow> bool) \<Rightarrow> string \<Rightarrow> string
     \<Rightarrow> exn + (string \<times> string \<times> string \<times> string \<times> string)" where
  "urlsplit chk url0 scheme0 =
     (let url = lstrip url0 WHATWG_C0_CONTROL_OR_SPACE;
          scheme = strip scheme0 WHATWG_C0_CONTROL_OR_SPACE;
          url = foldl remove_char url UNSAFE_URL_BYTES_TO_REMOVE;
          scheme = foldl remove_char scheme UNSAFE_URL_BYTES_TO_REMOVE;
          (scheme, url) =
            (if has_scheme url then (lower (before (CHR '':'') url), after (CHR '':'') url)
             else (scheme, url))
      in if take 2 url = ''//'' then
           (let (netloc, url) = splitnetloc url
            in if (CHR ''['' \<in> set netloc \<and> CHR '']'' \<notin> set netloc)
                  \<or> (CHR '']'' \<in> set netloc \<and> CHR ''['' \<notin> set netloc)
               then Inl (ValueError ''Invalid IPv6 URL'')
               else if CHR ''['' \<in> set netloc \<and> CHR '']'' \<in> set netloc
                       \<and> \<not> chk (before (CHR '']'') (after (CHR ''['') netloc))
               then Inl (ValueError ''invalid bracketed host'')
               else (case split_fragment_query url of
                       (url, query, fragment) \<Rightarrow> Inr (scheme, netloc, url, query, fragment)))
         else (case split_fragment_query url of
                 (url, query, fragment) \<Rightarrow> Inr (scheme, [], url, query, fragment)))"

text \<open>\<open>urlparse(url, scheme)\<close>: \<open>urlsplit\<close>, then the parameters split off the path.\<close>

definition urlparse ::
  "(string \<Rightarrow> bool) \<Rightarrow> string \<Rightarrow> string
     \<Rightarrow> exn + (string \<times> string \<times> string \<times> string \<times> string \<times> string)" where
  "urlparse chk url0 scheme0 =
     (case urlsplit chk url0 scheme0 of
        Inl e \<Rightarrow> Inl e
      | Inr (scheme, netloc, url, query, fragment) \<Rightarrow>
          if scheme \<in> set uses_params \<and> CHR '';'' \<in> set url
          then (case splitparams url of
                  (url, params) \<Rightarrow> Inr (scheme, netloc, url, params, query, fragment))
          else Inr (scheme, netloc, url, [], query, fragment))"

definition urlunsplit :: "string \<times> string \<times> string \<times> string \<times> string \<Rightarrow> string" where
  "urlunsplit components =
     (case components of (scheme, netloc, url0, query, fragment) \<Rightarrow>
        (let url =
               (if netloc \<noteq> [] \<or> (scheme \<noteq> [] \<and> scheme \<in> set uses_netloc)
                   \<or> take 2 url0 = ''//''
                then ''//'' @ netloc
                     @ (if url0 \<noteq> [] \<and> take 1 url0 \<noteq> ''/'' then ''/'' @ url0 else url0)
                else url0);
             url = (if scheme \<noteq> [] then scheme @ '':'' @ url else url);
             url = (if query \<noteq> [] then url @ ''?'' @ query else url);
             url = (if fragment \<noteq> [] then url @ ''#'' @ fragment else url)
         in url))"

definition urlunparse ::
  "string \<times> string \<times> string \<times> string \<times> string \<times> string \<Rightarrow> string" where
  "urlunparse components =
     (case components of (scheme, netloc, url, params, query, fragment) \<Rightarrow>
        urlunsplit (scheme, netloc,
                    (if params \<noteq> [] then url @ '';'' @ params else url), query, fragment))"

text \<open>
  The path resolution of \<open>urljoin\<close>. \<open>segments[1:-1] = filter(None, segments[1:-1])\<close> drops
  the empty segments strictly between the first and the last one.
\<close>

definition filter_inner :: "string list \<Rightarrow> string list" where
  "filter_inner segments =
     (if length segments \<le> 1 then segments
      else hd segments # filter (\<lambda>s. s \<noteq> []) (butlast (tl segments)) @ [last segments])"

text \<open>One turn of the loop over the segments: \<open>..\<close> pops (an empty stack stays empty),
  \<open>.\<close> is skipped, anything else is appended.\<close>

definition resolve_step :: "string list \<Rightarrow> string \<Rightarrow> string list" where
  "resolve_step resolved_path seg =
     (if seg = ''..'' then butlast resolved_path
      else if seg = ''.'' then resolved_path
      else resolved_path @ [seg])"

definition resolve_path :: "string \<Rightarrow> string \<Rightarrow> string" where
  "resolve_path bpath path =
     (let base_parts = split bpath (CHR ''/'');
          base_parts = (if last base_parts \<noteq> [] then butlast base_parts else base_parts);
          segments =
            (if take 1 path = ''/'' then split path (CHR ''/'')
             else filter_inner (base_parts @ split path (CHR ''/'')));
          resolved_path = foldl resolve_step [] segments;
          resolved_path =
            (if last segments \<in> {''.'', ''..''} then resolved_path @ [[]] else resolved_path);
          joined = join (CHR ''/'') resolved_path
      in if joined \<noteq> [] then joined else ''/'')"

definition urljoin :: "(string \<Rightarrow> bool) \<Rightarrow> string \<Rightarrow> string \<Rightarrow> exn + string" where
  "urljoin chk base url =
     (if base = [] then Inr url
      else if url = [] then Inr base
      else
        (case urlparse chk base [] of
           Inl e \<Rightarrow> Inl e
         | Inr (bscheme, bnetloc, bpath, bparams, bquery, bfragment) \<Rightarrow>
        (case urlparse chk url bscheme of
           Inl e \<Rightarrow> Inl e
         | Inr (scheme, netloc, path, params, query, fragment) \<Rightarrow>
             if scheme \<noteq> bscheme \<or> scheme \<notin> set uses_relative then Inr url
             else if scheme \<in> set uses_netloc \<and> netloc \<noteq> []
             then Inr (urlunparse (scheme, netloc, path, params, query, fragment))
             else
               (let netloc = (if scheme \<in> set uses_netloc then bnetloc else netloc)
                in if path = [] \<and> params = []
                   then Inr (urlunparse (scheme, netloc, bpath, bparams,
                                         (if query = [] then bquery else query), fragment))
                   else Inr (urlunparse (scheme, netloc, resolve_path bpath path,
                                         params, query, fragment))))))"

section \<open>Data of the program\<close>

text \<open>
  A stored document is a Python \<open>dict\<close> from field names to values, kept in insertion
  order; a value is a string or a vector of floats. Floats are modelled as real numbers
  with exact arithmetic.
\<close>

datatype pyval = Str string | Vec "real list"

type_synonym doc = "(string \<times> pyval) list"

text \<open>\<open>d.get(key, default)\<close>.\<close>

definition dict_get :: "doc \<Rightarrow> string \<Rightarrow> pyval \<Rightarrow> pyval" where
  "dict_get d key dflt = (case map_of d key of Some v \<Rightarrow> v | None \<Rightarrow> dflt)"

text \<open>
  An anchor element of the parsed page, as the program reads it: \<open>anchor.get("href")\<close>,
  which is \<open>None\<close> when the attribute is absent, and \<open>anchor.get_text(strip=True)\<close>.
\<close>

record anchor =
  href :: "string option"
  get_text :: string

text \<open>The parsed page: \<open>soup.find_all("a")\<close> and \<open>soup.select("a.link_title")\<close>.\<close>

record page =
  all_anchors :: "anchor list"
  title_links :: "anchor list"

text \<open>A row of a vector search, and the search result with its metrics.\<close>

record row =
  row_id :: string
  row_score :: real

record search_result =
  rows :: "row list"
  total_rows :: nat

text \<open>The lines the program prints, one constructor for each \<open>print\<close> of the source.\<close>

datatype msg =
    Failed_to_initialize_WebDriver exn
  | Accessing_blog_URL string
  | Waiting_5_seconds
  | Searching_for_blog_post_links
  | Found_links nat
  | Found_potential_blog_link string string
  | Error_in_fetch_blog_links exn
  | Starting_blog_scrape
  | Found_blog_post_links nat
  | Checking nat nat string
  | New_post_detected
  | Stored_embedding_for string
  | Failed_to_process string exn
  | Skipping string
  | Search_results
  | Result_line pyval pyval real
  | Could_not_fetch_document string
  | Error_line exn
  | Total_results nat
  | Vector_search_error exn
  | Usage_help

text \<open>What the program does to the outside, in order: a printed line or a call of a service.\<close>

datatype event =
    Print msg
  | Chrome
  | Driver_get string
  | Sleep nat
  | Page_source
  | Embeddings_create string
  | Collection_get string
  | Collection_upsert string doc
  | Scope_search "string option" "real list"

text \<open>
  The state: the documents of the Couchbase collection by key, and the events so far.
\<close>

record world =
  collection :: "string \<rightharpoonup> doc"
  trace :: "event list"

text \<open>
  The services the program calls. Each answer may depend on the moment of the call (the
  number of events before it) and on the arguments. A failure is the message of the
  exception raised; it is raised as \<open>Error\<close>, so a fault of the store is never taken for
  \<open>DocumentNotFoundException\<close>, which the store raises exactly for an absent key.
\<close>

record env =
  webdriver_Chrome :: "nat \<Rightarrow> string option"
  driver_get :: "nat \<Rightarrow> string \<Rightarrow> string option"
  page_source :: "nat \<Rightarrow> string + page"
  embeddings_create :: "nat \<Rightarrow> string \<Rightarrow> string + real list list"
  get_fault :: "nat \<Rightarrow> string \<Rightarrow> string option"
  upsert_fault :: "nat \<Rightarrow> string \<Rightarrow> string option"
  scope_search :: "nat \<Rightarrow> string option \<Rightarrow> real list \<Rightarrow> string + search_result"

text \<open>
  The module's configuration: the environment variables \<open>BLOG_IFRAME_URL\<close> and
  \<open>COUCHBASE_SEARCH_INDEX\<close>, the global \<open>BASE_URL\<close>, and the URL library's check of
  bracketed hosts.
\<close>

record globals =
  IFRAME_URL :: string
  BASE_URL :: string
  COUCHBASE_SEARCH_INDEX :: "string option"
  check_bracketed_host :: "string \<Rightarrow> bool"

text \<open>
  The value the module gives \<open>BASE_URL\<close>: \<open>f"{PARSED.scheme}://{PARSED.netloc}"\<close> for
  \<open>PARSED = urlparse(IFRAME_URL)\<close>.
\<close>

definition parsed_BASE_URL :: "(string \<Rightarrow> bool) \<Rightarrow> string \<Rightarrow> exn + string" where
  "parsed_BASE_URL chk iframe_url =
     (case urlparse chk iframe_url [] of
        Inl e \<Rightarrow> Inl e
      | Inr (scheme, netloc, path, params, query, fragment) \<Rightarrow> Inr (scheme @ ''://'' @ netloc))"

section \<open>Calls of the services\<close>

definition now :: "world \<Rightarrow> nat" where
  "now w = length (trace w)"

definition emit :: "event \<Rightarrow> world \<Rightarrow> world" where
  "emit e w = w\<lparr>trace := trace w @ [e]\<rparr>"

definition print :: "msg \<Rightarrow> world \<Rightarrow> world" where
  "print m w = emit (Print m) w"

text \<open>\<open>collection.get(key)\<close>: the document, \<open>DocumentNotFoundException\<close>, or a fault.\<close>

definition collection_get :: "env \<Rightarrow> string \<Rightarrow> world \<Rightarrow> (exn + doc) \<times> world" where
  "collection_get E key w =
     (case get_fault E (now w) key of
        Some m \<Rightarrow> (Inl (Error m), emit (Collection_get key) w)
      | None \<Rightarrow>
          (case collection w key of
             None \<Rightarrow> (Inl DocumentNotFoundException, emit (Collection_get key) w)
           | Some d \<Rightarrow> (Inr d, emit (Collection_get key) w)))"

text \<open>\<open>collection.upsert(key, d)\<close>: the document is written unless the call fails.\<close>

definition collection_upsert :: "env \<Rightarrow> string \<Rightarrow> doc \<Rightarrow> world \<Rightarrow> (exn + unit) \<times> world" where
  "collection_upsert E key d w =
     (case upsert_fault E (now w) key of
        Some m \<Rightarrow> (Inl (Error m), emit (Collection_upsert key d) w)
      | None \<Rightarrow>
          (Inr (), (emit (Collection_upsert key d) w)\<lparr>collection := (collection w)(key \<mapsto> d)\<rparr>))"

section \<open>The program\<close>

definition start_headless_browser :: "env \<Rightarrow> world \<Rightarrow> (exn + unit) \<times> world" where
  "start_headless_browser E w =
     (case webdriver_Chrome E (now w) of
        None \<Rightarrow> (Inr (), emit Chrome w)
      | Some m \<Rightarrow>
          (Inl (Error m), print (Failed_to_initialize_WebDriver (Error m)) (emit Chrome w)))"

text \<open>
  The body of the loop over the anchors (lines 83 to 103): nothing for an anchor that is
  skipped, the link for one that is kept, or the exception of \<open>urljoin\<close>.
\<close>

definition fetch_blog_links_anchor ::
  "globals \<Rightarrow> anchor \<Rightarrow> exn + (string \<times> string) option" where
  "fetch_blog_links_anchor G a =
     (case href a of
        None \<Rightarrow> Inr None
      | Some h \<Rightarrow>
          (let title = get_text a
           in if h = [] \<or> title = [] then Inr None
              else if length title < 5 then Inr None
              else if startswith h ''#'' \<or> startswith h ''javascript:'' then Inr None
              else
                (case (if \<not> (startswith h ''http://'' \<or> startswith h ''https://'')
                       then urljoin (check_bracketed_host G) (BASE_URL G) h
                       else Inr h) of
                   Inl e \<Rightarrow> Inl e
                 | Inr full_url \<Rightarrow>
                     if contains (lower full_url) ''blog''
                        \<and> (contains (lower full_url) ''post''
                             \<or> contains (lower full_url) ''entry''
                             \<or> contains (lower full_url) ''article'')
                     then Inr (Some (full_url, title))
                     else Inr None)))"

text \<open>The loop over the anchors: it stops at the first exception.\<close>

fun fetch_blog_links_loop ::
  "globals \<Rightarrow> anchor list \<Rightarrow> (string \<times> string) list \<Rightarrow> world
     \<Rightarrow> (exn + (string \<times> string) list) \<times> world" where
  "fetch_blog_links_loop G [] links w = (Inr links, w)"
| "fetch_blog_links_loop G (a # as) links w =
     (case fetch_blog_links_anchor G a of
        Inl e \<Rightarrow> (Inl e, w)
      | Inr None \<Rightarrow> fetch_blog_links_loop G as links w
      | Inr (Some (full_url, title)) \<Rightarrow>
          fetch_blog_links_loop G as (links @ [(full_url, title)])
            (print (Found_potential_blog_link title full_url) w))"

text \<open>The \<open>try\<close> block of \<open>fetch_blog_links\<close>.\<close>

definition fetch_blog_links_try ::
  "globals \<Rightarrow> env \<Rightarrow> world \<Rightarrow> (exn + (string \<times> string) list) \<times> world" where
  "fetch_blog_links_try G E w =
     (case start_headless_browser E w of
        (Inl e, w1) \<Rightarrow> (Inl e, w1)
      | (Inr _, w1) \<Rightarrow>
          (let w2 = print (Accessing_blog_URL (IFRAME_URL G)) w1
           in case driver_get E (now w2) (IFRAME_URL G) of
                Some m \<Rightarrow> (Inl (Error m), emit (Driver_get (IFRAME_URL G)) w2)
              | None \<Rightarrow>
                  (let w3 = print Waiting_5_seconds (emit (Driver_get (IFRAME_URL G)) w2);
                       w4 = emit (Sleep 5) w3
                   in case page_source E (now w4) of
                        Inl m \<Rightarrow> (Inl (Error m), emit Page_source w4)
                      | Inr soup \<Rightarrow>
                          (let w5 = print Searching_for_blog_post_links (emit Page_source w4);
                               w6 = print (Found_links (length (title_links soup))) w5
                           in fetch_blog_links_loop G (all_anchors soup) [] w6))))"

text \<open>\<open>fetch_blog_links\<close>: any exception is printed and the result is the empty list.\<close>

definition fetch_blog_links ::
  "globals \<Rightarrow> env \<Rightarrow> world \<Rightarrow> (string \<times> string) list \<times> world" where
  "fetch_blog_links G E w =
     (case fetch_blog_links_try G E w of
        (Inr links, w') \<Rightarrow> (links, w')
      | (Inl e, w') \<Rightarrow> ([], print (Error_in_fetch_blog_links e) w'))"

text \<open>\<open>generate_embedding\<close>: \<open>response.data[0].embedding\<close> of the provider's response.\<close>

definition generate_embedding :: "env \<Rightarrow> string \<Rightarrow> world \<Rightarrow> (exn + real list) \<times> world" where
  "generate_embedding E text w =
     (case embeddings_create E (now w) text of
        Inl m \<Rightarrow> (Inl (Error m), emit (Embeddings_create text) w)
      | Inr [] \<Rightarrow> (Inl IndexError, emit (Embeddings_create text) w)
      | Inr (embedding # _) \<Rightarrow> (Inr embedding, emit (Embeddings_create text) w))"

definition document_exists :: "env \<Rightarrow> string \<Rightarrow> world \<Rightarrow> (exn + bool) \<times> world" where
  "document_exists E url w =
     (case collection_get E url w of
        (Inr _, w') \<Rightarrow> (Inr True, w')
      | (Inl DocumentNotFoundException, w') \<Rightarrow> (Inr False, w')
      | (Inl e, w') \<Rightarrow> (Inl e, w'))"

definition store_embedding ::
  "env \<Rightarrow> string \<Rightarrow> string \<Rightarrow> real list \<Rightarrow> world \<Rightarrow> (exn + unit) \<times> world" where
  "store_embedding E url title embedding w =
     collection_upsert E url
       [(''type'', Str ''blog_post''), (''url'', Str url), (''title'', Str title),
        (''embedding'', Vec embedding)] w"

text \<open>
  The body of the loop of \<open>scrape_and_store\<close> (lines 143 to 153) for item \<open>i\<close> of \<open>n\<close>.
  The call of \<open>document_exists\<close> stands outside the \<open>try\<close>: its exception leaves the loop.
\<close>

definition scrape_and_store_item ::
  "env \<Rightarrow> nat \<Rightarrow> nat \<Rightarrow> string \<times> string \<Rightarrow> world \<Rightarrow> (exn + unit) \<times> world" where
  "scrape_and_store_item E i n link w =
     (case link of (url, title) \<Rightarrow>
        (case document_exists E url (print (Checking i n title) w) of
           (Inl e, w1) \<Rightarrow> (Inl e, w1)
         | (Inr True, w1) \<Rightarrow> (Inr (), print (Skipping title) w1)
         | (Inr False, w1) \<Rightarrow>
             (case generate_embedding E title (print New_post_detected w1) of
                (Inl e, w2) \<Rightarrow> (Inr (), print (Failed_to_process title e) w2)
              | (Inr embedding, w2) \<Rightarrow>
                  (case store_embedding E url title embedding w2 of
                     (Inl e, w3) \<Rightarrow> (Inr (), print (Failed_to_process title e) w3)
                   | (Inr _, w3) \<Rightarrow> (Inr (), print (Stored_embedding_for title) w3)))))"

fun scrape_and_store_loop ::
  "env \<Rightarrow> nat \<Rightarrow> nat \<Rightarrow> (string \<times> string) list \<Rightarrow> world \<Rightarrow> (exn + unit) \<times> world" where
  "scrape_and_store_loop E i n [] w = (Inr (), w)"
| "scrape_and_store_loop E i n (link # links) w =
     (case scrape_and_store_item E i n link w of
        (Inl e, w') \<Rightarrow> (Inl e, w')
      | (Inr _, w') \<Rightarrow> scrape_and_store_loop E (i + 1) n links w')"

definition scrape_and_store :: "globals \<Rightarrow> env \<Rightarrow> world \<Rightarrow> (exn + unit) \<times> world" where
  "scrape_and_store G E w =
     (case fetch_blog_links G E (print Starting_blog_scrape w) of
        (links, w1) \<Rightarrow>
          scrape_and_store_loop E 1 (length links) links
            (print (Found_blog_post_links (length links)) w1))"

text \<open>
  Python's \<open>round(x, ndigits)\<close> on exact numbers: to the nearest multiple of
  \<open>10 ** -ndigits\<close>, a tie to the even one.
\<close>

definition round_half_even :: "real \<Rightarrow> int" where
  "round_half_even x =
     (let f = \<lfloor>x\<rfloor>; d = x - of_int f
      in if d < 1 / 2 then f else if 1 / 2 < d then f + 1 else if even f then f else f + 1)"

definition py_round :: "real \<Rightarrow> nat \<Rightarrow> real" where
  "py_round x ndigits = of_int (round_half_even (x * 10 ^ ndigits)) / 10 ^ ndigits"

text \<open>
  The body of the loop over the rows of a search (lines 177 to 185): the join of a hit
  with its stored document; any exception of the join is printed and the hit is skipped.
\<close>

definition search_blog_posts_row :: "env \<Rightarrow> row \<Rightarrow> world \<Rightarrow> world" where
  "search_blog_posts_row E r w =
     (case collection_get E (row_id r) w of
        (Inr d, w') \<Rightarrow>
          print (Result_line (dict_get d ''title'' (Str ''N/A'')) (dict_get d ''url'' (Str ''N/A''))
                   (py_round (row_score r * 100) 2)) w'
      | (Inl inner_ex, w') \<Rightarrow>
          print (Error_line inner_ex) (print (Could_not_fetch_document (row_id r)) w'))"

text \<open>
  \<open>search_blog_posts\<close>: the embedding of the query is computed outside the \<open>try\<close>; a failure
  of the search itself is printed.
\<close>

definition search_blog_posts ::
  "globals \<Rightarrow> env \<Rightarrow> string \<Rightarrow> world \<Rightarrow> (exn + unit) \<times> world" where
  "search_blog_posts G E query w =
     (case generate_embedding E query w of
        (Inl e, w1) \<Rightarrow> (Inl e, w1)
      | (Inr embedding, w1) \<Rightarrow>
          (case scope_search E (now w1) (COUCHBASE_SEARCH_INDEX G) embedding of
             Inl m \<Rightarrow>
               (Inr (), print (Vector_search_error (Error m))
                          (emit (Scope_search (COUCHBASE_SEARCH_INDEX G) embedding) w1))
           | Inr result \<Rightarrow>
               (let w2 = print Search_results
                           (emit (Scope_search (COUCHBASE_SEARCH_INDEX G) embedding) w1);
                    w3 = foldl (\<lambda>w r. search_blog_posts_row E r w) w2 (rows result)
                in (Inr (), print (Total_results (total_rows result)) w3))))"

text \<open>The parsed command line: \<open>--scrape\<close> and \<open>--search QUERY\<close>.\<close>

record args =
  scrape :: bool
  search :: "string option"

text \<open>Truth of \<open>args.search\<close>: neither \<open>None\<close> nor the empty string.\<close>

definition truthy :: "string option \<Rightarrow> bool" where
  "truthy s = (case s of None \<Rightarrow> False | Some q \<Rightarrow> q \<noteq> [])"

definition main :: "globals \<Rightarrow> env \<Rightarrow> args \<Rightarrow> world \<Rightarrow> (exn + unit) \<times> world" where
  "main G E a w =
     (if scrape a then scrape_and_store G E w
      else if truthy (search a) then search_blog_posts G E (the (search a)) w
      else (Inr (), print Usage_help w))"

section \<open>Observations on a trace\<close>

text \<open>The outcome of an item of a scrape run, read off the line printed for it.\<close>

datatype outcome = Stored | Skipped | Failed

fun outcome_of :: "event \<Rightarrow> outcome option" where
  "outcome_of (Print (Stored_embedding_for title)) = Some Stored"
| "outcome_of (Print (Skipping title)) = Some Skipped"
| "outcome_of (Print (Failed_to_process title e)) = Some Failed"
| "outcome_of ev = None"

definition outcomes :: "event list \<Rightarrow> outcome list" where
  "outcomes tr = List.map_filter outcome_of tr"

fun is_write :: "event \<Rightarrow> bool" where
  "is_write (Collection_upsert key d) = True"
| "is_write ev = False"

fun is_embedding_call :: "event \<Rightarrow> bool" where
  "is_embedding_call (Embeddings_create text) = True"
| "is_embedding_call ev = False"

fun is_search_call :: "event \<Rightarrow> bool" where
  "is_search_call (Scope_search index v) = True"
| "is_search_call ev = False"

text \<open>The events a step added to the trace.\<close>

definition new_events :: "world \<Rightarrow> world \<Rightarrow> event list" where
  "new_events w w' = drop (length (trace w)) (trace w')"

section \<open>Notions of the specification\<close>



text \<open>
  A URL anchored at the origin \<open>scheme://netloc\<close>: it begins with the origin, and what
  follows is empty or begins a path, a query or a fragment, so the host ends there.
\<close>

definition anchored_at :: "string \<Rightarrow> string \<Rightarrow> string \<Rightarrow> bool" where
  "anchored_at scheme netloc u =
     (startswith u (scheme @ ''://'' @ netloc)
      \<and> (let rest = drop (length (scheme @ ''://'' @ netloc)) u
         in rest = [] \<or> hd rest \<in> set ''/?#''))"

section \<open>A sample configuration\<close>

text \<open>
  Concrete inputs for the instances below: a blog at \<open>https://x.com\<close>, services that
  answer every call, with a given page and a given search result, and the empty store.
\<close>

definition sample_globals :: globals where
  "sample_globals =
     \<lparr>IFRAME_URL = ''https://x.com/blog/list?page=1'',
      BASE_URL = ''https://x.com'',
      COUCHBASE_SEARCH_INDEX = Some ''blog-index'',
      check_bracketed_host = (\<lambda>h. False)\<rparr>"

definition services :: "page \<Rightarrow> search_result \<Rightarrow> env" where
  "services pg res =
     \<lparr>webdriver_Chrome = (\<lambda>t. None),
      driver_get = (\<lambda>t url. None),
      page_source = (\<lambda>t. Inr pg),
      embeddings_create = (\<lambda>t text. Inr [[1, 0]]),
      get_fault = (\<lambda>t key. None),
      upsert_fault = (\<lambda>t key. None),
      scope_search = (\<lambda>t index v. Inr res)\<rparr>"

definition no_rows :: search_result where
  "no_rows = \<lparr>rows = [], total_rows = 0\<rparr>"

definition empty_world :: world where
  "empty_world = \<lparr>collection = Map.empty, trace = []\<rparr>"

text \<open>The page of the specification's scenario: one blog post, a fragment link, a short link.\<close>

definition scenario_page :: page where
  "scenario_page =
     \<lparr>all_anchors =
        [\<lparr>href = Some ''/blog/post/42'', get_text = ''My New Post''\<rparr>,
         \<lparr>href = Some ''#'', get_text = ''x''\<rparr>,
         \<lparr>href = Some ''/other'', get_text = ''short''\<rparr>],
      title_links = []\<rparr>"





section \<open>Basic facts\<close>

lemma trace_emit [simp]: "trace (emit e w) = trace w @ [e]"
  by (simp add: emit_def)

lemma collection_emit [simp]: "collection (emit e w) = collection w"
  by (simp add: emit_def)

lemma trace_print [simp]: "trace (print m w) = trace w @ [Print m]"
  by (simp add: print_def)

lemma collection_print [simp]: "collection (print m w) = collection w"
  by (simp add: print_def)

text \<open>The lookup in one piece: its answer, and the one event it adds.\<close>

lemma collection_get_cases:
  "collection_get E key w =
     ((case get_fault E (now w) key of
         Some m \<Rightarrow> Inl (Error m)
       | None \<Rightarrow>
           (case collection w key of
              None \<Rightarrow> Inl DocumentNotFoundException
            | Some d \<Rightarrow> Inr d)),
      emit (Collection_get key) w)"
  by (simp add: collection_get_def split: option.splits)

lemma outcomes_simps [simp]:
  "outcomes [] = []"
  "outcomes (xs @ ys) = outcomes xs @ outcomes ys"
  "outcomes (ev # xs) = (case outcome_of ev of None \<Rightarrow> outcomes xs | Some oc \<Rightarrow> oc # outcomes xs)"
  by (simp_all add: outcomes_def List.map_filter_def split: option.splits)

lemma new_events_append: "trace w' = trace w @ es \<Longrightarrow> new_events w w' = es"
  by (simp add: new_events_def)





section \<open>The deduplicator\<close>

text \<open>
  C4. The existence check answers with a boolean: \<open>False\<close> exactly when the store's lookup
  reports not-found, \<open>True\<close> exactly when the lookup returns a document; any other failure
  of the lookup is passed on unchanged, and not-found itself is never raised.
\<close>

theorem document_exists_contract:
  "(fst (document_exists E url w) = Inr False
      \<longleftrightarrow> fst (collection_get E url w) = Inl DocumentNotFoundException)
   \<and> (fst (document_exists E url w) = Inr True
      \<longleftrightarrow> (\<exists>d. fst (collection_get E url w) = Inr d))
   \<and> (\<forall>e. e \<noteq> DocumentNotFoundException \<longrightarrow>
          (fst (document_exists E url w) = Inl e \<longleftrightarrow> fst (collection_get E url w) = Inl e))
   \<and> fst (document_exists E url w) \<noteq> Inl DocumentNotFoundException"
  by (auto simp: document_exists_def collection_get_cases split: option.splits)

theorem document_exists_contract_witness:
  "fst (document_exists (services scenario_page no_rows) ''https://x.com/blog/post/42''
          empty_world) = Inr False
   \<and> fst (collection_get (services scenario_page no_rows) ''https://x.com/blog/post/42''
            empty_world) = Inl DocumentNotFoundException
   \<and> fst (document_exists
            ((services scenario_page no_rows)\<lparr>get_fault := (\<lambda>t key. Some ''timeout'')\<rparr>)
            ''https://x.com/blog/post/42'' empty_world) = Inl (Error ''timeout'')"
  using document_exists_contract
          [of "services scenario_page no_rows" "''https://x.com/blog/post/42''" empty_world]
        document_exists_contract
          [of "(services scenario_page no_rows)\<lparr>get_fault := (\<lambda>t key. Some ''timeout'')\<rparr>"
              "''https://x.com/blog/post/42''" empty_world]
  by (simp add: collection_get_cases services_def empty_world_def)

section \<open>The Link Classifier\<close>






subsection \<open>Resolution of relative links\<close>

lemma resolve_path_nonempty: "resolve_path bpath path \<noteq> []"
  by (simp add: resolve_path_def Let_def)

lemma anchored_atI:
  assumes "rest = [] \<or> hd rest \<in> set ''/?#''"
  shows "anchored_at scheme netloc (scheme @ ''://'' @ netloc @ rest)"
proof -
  define p where "p = scheme @ ''://'' @ netloc"
  have eq: "scheme @ ''://'' @ netloc @ rest = p @ rest"
    by (simp add: p_def)
  have "startswith (p @ rest) p"
    by (simp add: startswith_def)
  moreover have "drop (length p) (p @ rest) = rest"
    by simp
  ultimately show ?thesis
    using assms unfolding anchored_at_def eq p_def [symmetric] by (simp add: Let_def)
qed

lemma urlunparse_origin:
  assumes "scheme \<noteq> []" "scheme \<in> set uses_netloc"
  shows "anchored_at scheme netloc (urlunparse (scheme, netloc, [], [], query, fragment))"
    and "path \<noteq> [] \<Longrightarrow>
           anchored_at scheme netloc (urlunparse (scheme, netloc, path, params, query, fragment))"
proof -
  have "urlunparse (scheme, netloc, [], [], query, fragment)
          = scheme @ ''://'' @ netloc
              @ ((if query \<noteq> [] then ''?'' @ query else [])
                 @ (if fragment \<noteq> [] then ''#'' @ fragment else []))"
    using assms by (simp add: urlunparse_def urlunsplit_def)
  moreover have "(if query \<noteq> [] then ''?'' @ query else [])
                 @ (if fragment \<noteq> [] then ''#'' @ fragment else []) = []
      \<or> hd ((if query \<noteq> [] then ''?'' @ query else [])
                 @ (if fragment \<noteq> [] then ''#'' @ fragment else [])) \<in> set ''/?#''"
    by auto
  ultimately show "anchored_at scheme netloc (urlunparse (scheme, netloc, [], [], query, fragment))"
    using anchored_atI by metis
next
  assume path: "path \<noteq> []"
  define p where "p = (if params \<noteq> [] then path @ '';'' @ params else path)"
  define p' where "p' = (if take 1 p \<noteq> ''/'' then ''/'' @ p else p)"
  have pne: "p \<noteq> []" using path by (simp add: p_def)
  have hd: "hd p' = CHR ''/''"
    using pne by (cases p) (auto simp: p'_def)
  have "urlunparse (scheme, netloc, path, params, query, fragment)
          = scheme @ ''://'' @ netloc
              @ (p' @ (if query \<noteq> [] then ''?'' @ query else [])
                 @ (if fragment \<noteq> [] then ''#'' @ fragment else []))"
    using assms pne by (simp add: urlunparse_def urlunsplit_def p_def p'_def)
  moreover have "hd (p' @ (if query \<noteq> [] then ''?'' @ query else [])
                 @ (if fragment \<noteq> [] then ''#'' @ fragment else [])) \<in> set ''/?#''"
    using hd pne by (cases p') (auto simp: p'_def split: if_splits)
  ultimately show "anchored_at scheme netloc
      (urlunparse (scheme, netloc, path, params, query, fragment))"
    using anchored_atI by metis
qed

lemma urljoin_relative:
  assumes base: "urlparse chk base [] = Inr (bscheme, bnetloc, [], [], [], [])"
    and scheme: "bscheme \<noteq> []" "bscheme \<in> set uses_relative" "bscheme \<in> set uses_netloc"
    and rel: "urlparse chk h bscheme = Inr (bscheme, [], path, params, query, fragment)"
    and h: "h \<noteq> []"
  shows "\<exists>u. urljoin chk base h = Inr u \<and> anchored_at bscheme bnetloc u"
proof -
  have "urlparse chk [] [] = Inr ([], [], [], [], [], [])"
    by code_simp
  with base scheme(1) have b: "base \<noteq> []" by auto
  show ?thesis
  proof (cases "path = [] \<and> params = []")
    case True
    then have "urljoin chk base h
        = Inr (urlunparse (bscheme, bnetloc, [], [], query, fragment))"
      using base rel scheme b h by (simp add: urljoin_def)
    with urlunparse_origin(1) [OF scheme(1,3)] show ?thesis by simp
  next
    case False
    then have "urljoin chk base h
        = Inr (urlunparse (bscheme, bnetloc, resolve_path [] path, params, query, fragment))"
      using base rel scheme b h by (auto simp: urljoin_def)
    with urlunparse_origin(2) [OF scheme(1,3) resolve_path_nonempty] show ?thesis by simp
  qed
qed


subsection \<open>The base URL of the module\<close>

lemma slash_not_space: "CHR ''/'' \<notin> set WHATWG_C0_CONTROL_OR_SPACE"
  by code_simp

lemma remove_unsafe_id:
  "\<forall>c \<in> set s. c \<notin> set UNSAFE_URL_BYTES_TO_REMOVE \<Longrightarrow>
     foldl remove_char s UNSAFE_URL_BYTES_TO_REMOVE = s"
  by (simp add: UNSAFE_URL_BYTES_TO_REMOVE_def remove_char_def filter_id_conv)

lemma split_fragment_query_shape:
  "\<exists>url query fragment. split_fragment_query u = (url, query, fragment)"
  by (metis prod_cases3)

lemma urlsplit_path_absolute:
  assumes "h = CHR ''/'' # h'" "take 1 h' \<noteq> ''/''"
    and "\<forall>c \<in> set h. c \<notin> set UNSAFE_URL_BYTES_TO_REMOVE"
  shows "\<exists>path query fragment.
           urlsplit chk h s
             = Inr (foldl remove_char (strip s WHATWG_C0_CONTROL_OR_SPACE) UNSAFE_URL_BYTES_TO_REMOVE,
                    [], path, query, fragment)"
proof -
  have l: "lstrip h WHATWG_C0_CONTROL_OR_SPACE = h"
    using assms(1) slash_not_space by (simp add: lstrip_def)
  have r: "foldl remove_char h UNSAFE_URL_BYTES_TO_REMOVE = h"
    using assms(3) by (rule remove_unsafe_id)
  have ns: "\<not> has_scheme h"
    using assms(1) by (simp add: has_scheme_def isascii_isalpha_def)
  have t: "take 2 h \<noteq> ''//''"
    using assms(1,2) by (cases h') auto
  obtain url query fragment where "split_fragment_query h = (url, query, fragment)"
    using split_fragment_query_shape by blast
  then show ?thesis
    using l r ns t by (simp add: urlsplit_def Let_def)
qed

lemma urlparse_path_absolute:
  assumes "h = CHR ''/'' # h'" "take 1 h' \<noteq> ''/''"
    and "\<forall>c \<in> set h. c \<notin> set UNSAFE_URL_BYTES_TO_REMOVE"
  shows "\<exists>path params query fragment.
           urlparse chk h s
             = Inr (foldl remove_char (strip s WHATWG_C0_CONTROL_OR_SPACE) UNSAFE_URL_BYTES_TO_REMOVE,
                    [], path, params, query, fragment)"
proof -
  from urlsplit_path_absolute [OF assms] obtain path query fragment where
    "urlsplit chk h s
       = Inr (foldl remove_char (strip s WHATWG_C0_CONTROL_OR_SPACE) UNSAFE_URL_BYTES_TO_REMOVE,
              [], path, query, fragment)"
    by blast
  then show ?thesis
    by (cases "splitparams path") (auto simp: urlparse_def)
qed

lemma set_remove_unsafe:
  "c \<in> set (foldl remove_char x UNSAFE_URL_BYTES_TO_REMOVE) \<Longrightarrow>
     c \<notin> set UNSAFE_URL_BYTES_TO_REMOVE \<and> c \<in> set x"
  by (simp add: UNSAFE_URL_BYTES_TO_REMOVE_def remove_char_def)

lemma set_after: "c \<in> set (after d x) \<Longrightarrow> c \<in> set x"
proof -
  assume "c \<in> set (after d x)"
  then have "c \<in> set (dropWhile (\<lambda>y. y \<noteq> d) x)"
    by (cases "dropWhile (\<lambda>y. y \<noteq> d) x") (auto simp: after_def)
  then show ?thesis by (rule set_dropWhileD)
qed

text \<open>The network location of a parsed URL has no delimiter and no removed character, and
  has passed the checks of its brackets.\<close>

lemma urlsplit_netloc:
  assumes "urlsplit chk u s0 = Inr (s, n, p, q, f)"
  shows "\<forall>c \<in> set n. c \<notin> set ''/?#'' \<and> c \<notin> set UNSAFE_URL_BYTES_TO_REMOVE"
    and "\<not> ((CHR ''['' \<in> set n \<and> CHR '']'' \<notin> set n) \<or> (CHR '']'' \<in> set n \<and> CHR ''['' \<notin> set n))"
    and "\<not> (CHR ''['' \<in> set n \<and> CHR '']'' \<in> set n
            \<and> \<not> chk (before (CHR '']'') (after (CHR ''['') n)))"
proof -
  define url1 where "url1 = foldl remove_char (lstrip u WHATWG_C0_CONTROL_OR_SPACE) UNSAFE_URL_BYTES_TO_REMOVE"
  define url2 where "url2 = (if has_scheme url1 then after (CHR '':'') url1 else url1)"
  have safe1: "\<forall>c \<in> set url1. c \<notin> set UNSAFE_URL_BYTES_TO_REMOVE"
    using set_remove_unsafe by (auto simp: url1_def)
  have safe2: "\<forall>c \<in> set url2. c \<notin> set UNSAFE_URL_BYTES_TO_REMOVE"
    using safe1 set_after by (auto simp: url2_def)
  have split: "urlsplit chk u s0 =
     (if take 2 url2 = ''//'' then
           (let (netloc, url) = splitnetloc url2
            in if (CHR ''['' \<in> set netloc \<and> CHR '']'' \<notin> set netloc)
                  \<or> (CHR '']'' \<in> set netloc \<and> CHR ''['' \<notin> set netloc)
               then Inl (ValueError ''Invalid IPv6 URL'')
               else if CHR ''['' \<in> set netloc \<and> CHR '']'' \<in> set netloc
                       \<and> \<not> chk (before (CHR '']'') (after (CHR ''['') netloc))
               then Inl (ValueError ''invalid bracketed host'')
               else (case split_fragment_query url of
                       (url, query, fragment) \<Rightarrow>
                         Inr (if has_scheme url1 then lower (before (CHR '':'') url1)
                              else foldl remove_char (strip s0 WHATWG_C0_CONTROL_OR_SPACE)
                                     UNSAFE_URL_BYTES_TO_REMOVE,
                              netloc, url, query, fragment)))
         else (case split_fragment_query url2 of
                 (url, query, fragment) \<Rightarrow>
                   Inr (if has_scheme url1 then lower (before (CHR '':'') url1)
                        else foldl remove_char (strip s0 WHATWG_C0_CONTROL_OR_SPACE)
                               UNSAFE_URL_BYTES_TO_REMOVE,
                        [], url, query, fragment)))"
  proof (cases "has_scheme url1")
    case True
    then show ?thesis
      unfolding url2_def urlsplit_def Let_def url1_def [symmetric] by simp
  next
    case False
    then show ?thesis
      unfolding url2_def urlsplit_def Let_def url1_def [symmetric] by simp
  qed
  show "\<forall>c \<in> set n. c \<notin> set ''/?#'' \<and> c \<notin> set UNSAFE_URL_BYTES_TO_REMOVE"
  proof (cases "take 2 url2 = ''//''")
    case True
    with assms split have n: "n = takeWhile (\<lambda>c. c \<notin> set ''/?#'') (drop 2 url2)"
      by (auto simp: splitnetloc_def Let_def split: if_splits prod.splits)
    have "\<forall>c \<in> set n. c \<in> set url2"
      unfolding n by (meson in_set_dropD set_takeWhileD)
    moreover have "\<forall>c \<in> set n. c \<notin> set ''/?#''"
      unfolding n using set_takeWhileD by fastforce
    ultimately show ?thesis using safe2 by blast
  next
    case False
    with assms split have "n = []" by (auto split: prod.splits)
    then show ?thesis by simp
  qed
  show "\<not> ((CHR ''['' \<in> set n \<and> CHR '']'' \<notin> set n) \<or> (CHR '']'' \<in> set n \<and> CHR ''['' \<notin> set n))"
    using assms split by (auto simp: Let_def split: if_splits prod.splits)
  show "\<not> (CHR ''['' \<in> set n \<and> CHR '']'' \<in> set n
            \<and> \<not> chk (before (CHR '']'') (after (CHR ''['') n)))"
    using assms split by (auto simp: Let_def split: if_splits prod.splits)
qed

lemma split_fragment_query_Nil: "split_fragment_query [] = ([], [], [])"
  by (simp add: split_fragment_query_def)

lemma strip_Nil:
  "foldl remove_char (strip [] WHATWG_C0_CONTROL_OR_SPACE) UNSAFE_URL_BYTES_TO_REMOVE = []"
  by (simp add: strip_def lstrip_def rstrip_def UNSAFE_URL_BYTES_TO_REMOVE_def remove_char_def)

text \<open>
  The schemes that allow relative references are plain: lowercase, made of scheme
  characters, beginning with a letter, and untouched by the cleaning of \<open>urlsplit\<close>.
\<close>

lemma relative_schemes_plain:
  "\<forall>s \<in> set uses_relative. s \<noteq> [] \<longrightarrow>
     CHR '':'' \<notin> set s \<and> isascii_isalpha (hd s) \<and> list_all (\<lambda>c. c \<in> set scheme_chars) s
     \<and> lower s = s \<and> hd s \<notin> set WHATWG_C0_CONTROL_OR_SPACE
     \<and> (\<forall>c \<in> set s. c \<notin> set UNSAFE_URL_BYTES_TO_REMOVE)
     \<and> foldl remove_char (strip s WHATWG_C0_CONTROL_OR_SPACE) UNSAFE_URL_BYTES_TO_REMOVE = s"
  by code_simp

lemma urlsplit_origin:
  assumes scheme: "s \<noteq> []" "s \<in> set uses_relative"
    and n: "\<forall>c \<in> set n. c \<notin> set ''/?#'' \<and> c \<notin> set UNSAFE_URL_BYTES_TO_REMOVE"
    "\<not> ((CHR ''['' \<in> set n \<and> CHR '']'' \<notin> set n) \<or> (CHR '']'' \<in> set n \<and> CHR ''['' \<notin> set n))"
    "\<not> (CHR ''['' \<in> set n \<and> CHR '']'' \<in> set n
            \<and> \<not> chk (before (CHR '']'') (after (CHR ''['') n)))"
  shows "urlsplit chk (s @ ''://'' @ n) [] = Inr (s, n, [], [], [])"
proof -
  from relative_schemes_plain scheme have plain:
    "CHR '':'' \<notin> set s" "isascii_isalpha (hd s)" "list_all (\<lambda>c. c \<in> set scheme_chars) s"
    "lower s = s" "hd s \<notin> set WHATWG_C0_CONTROL_OR_SPACE"
    "\<forall>c \<in> set s. c \<notin> set UNSAFE_URL_BYTES_TO_REMOVE"
    by blast+
  obtain x xs where s: "s = x # xs"
    using scheme(1) by (cases s) auto
  have safe: "\<forall>c \<in> set (s @ ''://'' @ n). c \<notin> set UNSAFE_URL_BYTES_TO_REMOVE"
    using plain(6) n(1) by (auto simp: UNSAFE_URL_BYTES_TO_REMOVE_def)
  have l: "lstrip (s @ ''://'' @ n) WHATWG_C0_CONTROL_OR_SPACE = s @ ''://'' @ n"
    using plain(5) by (simp add: lstrip_def s)
  have r: "foldl remove_char (s @ ''://'' @ n) UNSAFE_URL_BYTES_TO_REMOVE = s @ ''://'' @ n"
    using safe by (rule remove_unsafe_id)
  have ne: "\<And>c. c \<in> set s \<Longrightarrow> c \<noteq> CHR '':''"
    using plain(1) by blast
  have bf: "before (CHR '':'') (s @ ''://'' @ n) = s"
    by (simp add: before_def ne)
  have hs: "has_scheme (s @ ''://'' @ n)"
    unfolding has_scheme_def bf using plain(2,3) scheme(1) by simp
  have a: "after (CHR '':'') (s @ ''://'' @ n) = ''//'' @ n"
    by (simp add: after_def ne)
  have sn: "splitnetloc (''//'' @ n) = (n, [])"
    using n(1) by (simp add: splitnetloc_def)
  show ?thesis
    unfolding urlsplit_def Let_def l r strip_Nil
    by (simp only: hs if_True bf plain(4) a sn split_fragment_query_Nil prod.case n(2,3) if_False)
       simp
qed

text \<open>
  The origin of a URL with such a scheme parses back into its scheme and network location.
\<close>

lemma origin_parses_back:
  assumes parsed: "urlparse chk iframe_url [] = Inr (s, n, p, ps, q, f)"
    and scheme: "s \<noteq> []" "s \<in> set uses_relative"
  shows "urlparse chk (s @ ''://'' @ n) [] = Inr (s, n, [], [], [], [])"
proof -
  from parsed obtain p' where split: "urlsplit chk iframe_url [] = Inr (s, n, p', q, f)"
    by (auto simp: urlparse_def split: sum.splits prod.splits if_splits)
  note n = urlsplit_netloc [OF split]
  have "urlsplit chk (s @ ''://'' @ n) [] = Inr (s, n, [], [], [])"
    using scheme n(1) n(2) n(3) by (rule urlsplit_origin)
  then show ?thesis
    by (simp add: urlparse_def)
qed

text \<open>
  An href resolved against the base URL that the module computes from the blog URL: when
  the blog URL has a scheme that allows relative references and a network location, and
  the href reads as a reference without a network location and without another scheme,
  the result is anchored at the blog's origin.
\<close>

lemma urljoin_module_base:
  assumes module: "parsed_BASE_URL chk iframe_url = Inr base"
    and parsed: "urlparse chk iframe_url [] = Inr (s, n, p, ps, q, f)"
    and scheme: "s \<noteq> []" "s \<in> set uses_relative" "s \<in> set uses_netloc"
    and rel: "urlparse chk h s = Inr (s, [], path, params, query, fragment)"
    and h: "h \<noteq> []"
  shows "\<exists>u. urljoin chk base h = Inr u \<and> anchored_at s n u"
proof -
  have base: "base = s @ ''://'' @ n"
    using module parsed by (simp add: parsed_BASE_URL_def)
  have b: "urlparse chk base [] = Inr (s, n, [], [], [], [])"
    unfolding base using parsed scheme(1,2) by (rule origin_parses_back)
  from urljoin_relative [OF b scheme rel h] show ?thesis .
qed

text \<open>
  In particular every href that begins with a single slash and holds no tab, carriage
  return or line feed resolves to a URL anchored at the blog's origin.
\<close>

lemma path_absolute_href_anchored:
  assumes module: "parsed_BASE_URL chk iframe_url = Inr base"
    and parsed: "urlparse chk iframe_url [] = Inr (s, n, p, ps, q, f)"
    and scheme: "s \<noteq> []" "s \<in> set uses_relative" "s \<in> set uses_netloc"
    and href: "h = CHR ''/'' # h'" "take 1 h' \<noteq> ''/''"
              "\<forall>c \<in> set h. c \<notin> set UNSAFE_URL_BYTES_TO_REMOVE"
  shows "\<exists>u. urljoin chk base h = Inr u \<and> anchored_at s n u"
proof -
  have clean: "foldl remove_char (strip s WHATWG_C0_CONTROL_OR_SPACE) UNSAFE_URL_BYTES_TO_REMOVE = s"
    using relative_schemes_plain scheme(1,2) by blast
  from urlparse_path_absolute [OF href, of chk s] clean obtain path params query fragment where
    rel: "urlparse chk h s = Inr (s, [], path, params, query, fragment)"
    by auto
  have "h \<noteq> []" using href(1) by simp
  from urljoin_module_base [OF module parsed scheme rel this] show ?thesis .
qed

text \<open>
  C7, as amended. Let the blog URL have a scheme that allows relative references and a
  network location (as \<open>http\<close> and \<open>https\<close> do), and let the base URL be the origin the
  module computes from it. For every anchor kept whose href does not begin with
  \<open>http://\<close> or \<open>https://\<close> and which \<open>urlparse\<close> reads as a reference without a network
  location and without a scheme other than the blog URL's, the resolved URL is anchored
  at the blog's origin: its scheme and network location, followed by nothing or by a
  path, a query or a fragment.
\<close>

theorem relative_href_anchored_at_origin:
  assumes emitted: "fetch_blog_links_anchor G a = Inr (Some (u, t))"
    and href: "href a = Some h"
    and not_absolute: "\<not> startswith h ''http://''" "\<not> startswith h ''https://''"
    and module: "parsed_BASE_URL (check_bracketed_host G) (IFRAME_URL G) = Inr (BASE_URL G)"
    and parsed: "urlparse (check_bracketed_host G) (IFRAME_URL G) [] = Inr (s, n, p, ps, q, f)"
    and scheme: "s \<noteq> []" "s \<in> set uses_relative" "s \<in> set uses_netloc"
    and relative: "urlparse (check_bracketed_host G) h s
                     = Inr (s, [], path, params, query, fragment)"
  shows "anchored_at s n u"
proof -
  have h: "h \<noteq> []"
    using emitted href by (auto simp: fetch_blog_links_anchor_def Let_def split: if_splits)
  from urljoin_module_base [OF module parsed scheme relative h] obtain u' where
    u': "urljoin (check_bracketed_host G) (BASE_URL G) h = Inr u'" "anchored_at s n u'"
    by blast
  have "u = u'"
    using emitted href not_absolute u'(1)
    by (auto simp: fetch_blog_links_anchor_def Let_def split: if_splits)
  with u'(2) show ?thesis by simp
qed

theorem relative_href_anchored_at_origin_witness:
  "fetch_blog_links_anchor sample_globals
       \<lparr>href = Some ''blog/post/42?ref=home'', get_text = ''My New Post''\<rparr>
     = Inr (Some (''https://x.com/blog/post/42?ref=home'', ''My New Post''))
   \<and> anchored_at ''https'' ''x.com'' ''https://x.com/blog/post/42?ref=home''"
proof -
  let ?a = "\<lparr>href = Some ''blog/post/42?ref=home'', get_text = ''My New Post''\<rparr>"
  have emitted: "fetch_blog_links_anchor sample_globals ?a
     = Inr (Some (''https://x.com/blog/post/42?ref=home'', ''My New Post''))"
    by code_simp
  have href: "href ?a = Some ''blog/post/42?ref=home''" by simp
  have not_absolute: "\<not> startswith ''blog/post/42?ref=home'' ''http://''"
    "\<not> startswith ''blog/post/42?ref=home'' ''https://''"
    by (simp_all add: startswith_def)
  have module: "parsed_BASE_URL (check_bracketed_host sample_globals) (IFRAME_URL sample_globals)
                  = Inr (BASE_URL sample_globals)"
    by code_simp
  have parsed: "urlparse (check_bracketed_host sample_globals) (IFRAME_URL sample_globals) []
                  = Inr (''https'', ''x.com'', ''/blog/list'', [], ''page=1'', [])"
    by code_simp
  have scheme: "''https'' \<noteq> []" "''https'' \<in> set uses_relative" "''https'' \<in> set uses_netloc"
    by (simp_all add: uses_relative_def uses_netloc_def)
  have relative: "urlparse (check_bracketed_host sample_globals) ''blog/post/42?ref=home'' ''https''
                 = Inr (''https'', [], ''blog/post/42'', [], ''ref=home'', [])"
    by code_simp
  from relative_href_anchored_at_origin
         [OF emitted href not_absolute module parsed scheme relative] emitted
  show ?thesis by simp
qed

text \<open>
  The claim as stated fails for the forms it names: a protocol-relative href keeps its
  own host, and an href with another scheme is kept as it is.
\<close>

theorem protocol_relative_href_leaves_origin:
  "fetch_blog_links_anchor sample_globals
       \<lparr>href = Some ''//evil.example/blog/post-1'', get_text = ''Evil post''\<rparr>
     = Inr (Some (''https://evil.example/blog/post-1'', ''Evil post''))
   \<and> \<not> anchored_at ''https'' ''x.com'' ''https://evil.example/blog/post-1''
   \<and> \<not> startswith ''https://evil.example/blog/post-1'' (BASE_URL sample_globals)
   \<and> fetch_blog_links_anchor sample_globals
       \<lparr>href = Some ''ftp://files.example/blog/post-1'', get_text = ''Files post''\<rparr>
     = Inr (Some (''ftp://files.example/blog/post-1'', ''Files post''))
   \<and> \<not> startswith ''ftp://files.example/blog/post-1'' (BASE_URL sample_globals)"
  by code_simp

section \<open>The Index Writer\<close>

text \<open>
  C6. After a successful write of \<open>(url, title, embedding)\<close>, a lookup by \<open>url\<close> that
  the store answers returns a record whose \<open>title\<close> and \<open>url\<close> are the values written and
  whose \<open>type\<close> is \<open>blog_post\<close>; the join of a search hit with that key prints this title
  and URL.
\<close>

theorem store_embedding_round_trip:
  assumes "store_embedding E url title embedding w = (Inr u, w')"
    and "get_fault E (now w') url = None"
  shows "\<exists>d. fst (collection_get E url w') = Inr d
           \<and> dict_get d ''title'' (Str ''N/A'') = Str title
           \<and> dict_get d ''url'' (Str ''N/A'') = Str url
           \<and> dict_get d ''type'' (Str ''N/A'') = Str ''blog_post''
           \<and> dict_get d ''embedding'' (Str ''N/A'') = Vec embedding
           \<and> last (trace (search_blog_posts_row E \<lparr>row_id = url, row_score = s\<rparr> w'))
               = Print (Result_line (Str title) (Str url) (py_round (s * 100) 2))"
  using assms
  by (auto simp: store_embedding_def collection_upsert_def collection_get_cases dict_get_def
                 search_blog_posts_row_def
           split: option.splits)

theorem store_embedding_round_trip_witness:
  "fst (store_embedding (services scenario_page no_rows) ''https://x.com/blog/post/42''
          ''My New Post'' [1, 0] empty_world) = Inr ()
   \<and> (\<exists>d. fst (collection_get (services scenario_page no_rows) ''https://x.com/blog/post/42''
                 (snd (store_embedding (services scenario_page no_rows)
                         ''https://x.com/blog/post/42'' ''My New Post'' [1, 0] empty_world)))
             = Inr d
          \<and> dict_get d ''title'' (Str ''N/A'') = Str ''My New Post''
          \<and> dict_get d ''url'' (Str ''N/A'') = Str ''https://x.com/blog/post/42''
          \<and> dict_get d ''type'' (Str ''N/A'') = Str ''blog_post'')"
proof -
  let ?E = "services scenario_page no_rows"
  let ?w' = "snd (store_embedding ?E ''https://x.com/blog/post/42'' ''My New Post'' [1, 0]
                    empty_world)"
  have ok: "fst (store_embedding ?E ''https://x.com/blog/post/42'' ''My New Post'' [1, 0]
                   empty_world) = Inr ()"
    by (simp add: store_embedding_def collection_upsert_def services_def)
  then have written: "store_embedding ?E ''https://x.com/blog/post/42'' ''My New Post'' [1, 0]
      empty_world = (Inr (), ?w')"
    by (simp add: prod_eq_iff)
  have up: "get_fault ?E (now ?w') ''https://x.com/blog/post/42'' = None"
    by (simp add: services_def)
  from store_embedding_round_trip [OF written up, of 1] ok show ?thesis
    by blast
qed

section \<open>The pipeline orchestrator\<close>

subsection \<open>One item\<close>



subsection \<open>The loop over the links\<close>



subsection \<open>Link discovery leaves the store alone\<close>

lemma fetch_loop_frame:
  "fetch_blog_links_loop G as links w = (r, w') \<Longrightarrow>
     collection w' = collection w
     \<and> (\<exists>es. trace w' = trace w @ es \<and> outcomes es = [] \<and> filter is_write es = []
           \<and> filter is_embedding_call es = [])"
proof (induction as arbitrary: links w)
  case Nil
  then show ?case by auto
next
  case (Cons a as)
  show ?case
  proof (cases "fetch_blog_links_anchor G a")
    case (Inl e)
    with Cons.prems show ?thesis by auto
  next
    case (Inr found)
    show ?thesis
    proof (cases found)
      case None
      with Cons Inr show ?thesis by auto
    next
      case (Some l)
      obtain full_url title where l: "l = (full_url, title)" by (cases l)
      from Cons.prems Inr Some l
      have "fetch_blog_links_loop G as (links @ [(full_url, title)])
              (print (Found_potential_blog_link title full_url) w) = (r, w')"
        by simp
      from Cons.IH [OF this] show ?thesis by auto
    qed
  qed
qed

lemma fetch_try_frame:
  "fetch_blog_links_try G E w = (r, w') \<Longrightarrow>
     collection w' = collection w
     \<and> (\<exists>es. trace w' = trace w @ es \<and> outcomes es = [] \<and> filter is_write es = []
           \<and> filter is_embedding_call es = [])"
  by (auto simp: fetch_blog_links_try_def start_headless_browser_def Let_def
           split: option.splits sum.splits prod.splits dest!: fetch_loop_frame)



subsection \<open>Idempotence\<close>



subsection \<open>Failures of one item\<close>




subsection \<open>Failure of link discovery\<close>

text \<open>
  C5, as amended. When link discovery raises (the browser does not start, the page does
  not load or its source cannot be read), \<open>fetch_blog_links\<close> prints the exception and
  answers with the empty list; the scrape run then reports zero links, processes no item,
  leaves the store as it is and returns normally.
\<close>

theorem render_failure_swallowed:
  assumes "fetch_blog_links_try G E (print Starting_blog_scrape w) = (Inl e, w1)"
  shows "main G E \<lparr>scrape = True, search = q\<rparr> w
           = (Inr (), print (Found_blog_post_links 0) (print (Error_in_fetch_blog_links e) w1))
         \<and> collection (snd (main G E \<lparr>scrape = True, search = q\<rparr> w)) = collection w
         \<and> outcomes (new_events w (snd (main G E \<lparr>scrape = True, search = q\<rparr> w))) = []"
proof -
  from fetch_try_frame [OF assms] obtain es where es:
    "collection w1 = collection w" "trace w1 = trace w @ Print Starting_blog_scrape # es"
    "outcomes es = []"
    by auto
  have m: "main G E \<lparr>scrape = True, search = q\<rparr> w
           = (Inr (), print (Found_blog_post_links 0) (print (Error_in_fetch_blog_links e) w1))"
    using assms by (simp add: main_def scrape_and_store_def fetch_blog_links_def)
  have tr: "trace (print (Found_blog_post_links 0) (print (Error_in_fetch_blog_links e) w1))
             = trace w @ (Print Starting_blog_scrape # es
                 @ [Print (Error_in_fetch_blog_links e), Print (Found_blog_post_links 0)])"
    using es(2) by simp
  show ?thesis
    using es(1,3) by (simp add: m new_events_append [OF tr])
qed

theorem render_failure_swallowed_witness:
  "main sample_globals
     ((services scenario_page no_rows)\<lparr>page_source := (\<lambda>t. Inl ''tab crashed'')\<rparr>)
     \<lparr>scrape = True, search = None\<rparr> empty_world
   = (Inr (),
      \<lparr>collection = Map.empty,
       trace = [Print Starting_blog_scrape, Chrome,
                Print (Accessing_blog_URL ''https://x.com/blog/list?page=1''),
                Driver_get ''https://x.com/blog/list?page=1'', Print Waiting_5_seconds,
                Sleep 5, Page_source,
                Print (Error_in_fetch_blog_links (Error ''tab crashed'')),
                Print (Found_blog_post_links 0)]\<rparr>)"
proof -
  let ?E = "(services scenario_page no_rows)\<lparr>page_source := (\<lambda>t. Inl ''tab crashed'')\<rparr>"
  have raised: "fetch_blog_links_try sample_globals ?E (print Starting_blog_scrape empty_world)
      = (Inl (Error ''tab crashed''),
         \<lparr>collection = Map.empty,
          trace = [Print Starting_blog_scrape, Chrome,
                   Print (Accessing_blog_URL ''https://x.com/blog/list?page=1''),
                   Driver_get ''https://x.com/blog/list?page=1'', Print Waiting_5_seconds,
                   Sleep 5, Page_source]\<rparr>)"
    by (simp add: fetch_blog_links_try_def start_headless_browser_def services_def
          sample_globals_def empty_world_def print_def emit_def now_def Let_def)
  from render_failure_swallowed [OF raised, of None] show ?thesis
    by (simp add: print_def emit_def)
qed

text \<open>
  The claim as stated fails: with a browser that cannot be started, the invocation
  \<open>--scrape\<close> returns without an exception after printing the diagnostics.
\<close>

theorem render_failure_completes_normally:
  "main sample_globals
     ((services scenario_page no_rows)\<lparr>webdriver_Chrome := (\<lambda>t. Some ''chrome not reachable'')\<rparr>)
     \<lparr>scrape = True, search = None\<rparr> empty_world
   = (Inr (),
      \<lparr>collection = Map.empty,
       trace = [Print Starting_blog_scrape, Chrome,
                Print (Failed_to_initialize_WebDriver (Error ''chrome not reachable'')),
                Print (Error_in_fetch_blog_links (Error ''chrome not reachable'')),
                Print (Found_blog_post_links 0)]\<rparr>)"
  by (simp add: main_def scrape_and_store_def fetch_blog_links_def fetch_blog_links_try_def
        start_headless_browser_def services_def empty_world_def print_def emit_def now_def)

subsection \<open>Stored records are left alone\<close>



section \<open>The Retriever\<close>






section \<open>The command line\<close>

text \<open>
  C10. \<open>--search\<close> with the empty string and without \<open>--scrape\<close>: the program prints the
  usage help and returns without an error, exactly as with no operation at all; it calls
  neither the embedding provider nor the vector search.
\<close>

theorem main_empty_search:
  "main G E \<lparr>scrape = False, search = Some []\<rparr> w = (Inr (), print Usage_help w)
   \<and> main G E \<lparr>scrape = False, search = Some []\<rparr> w
       = main G E \<lparr>scrape = False, search = None\<rparr> w
   \<and> new_events w (snd (main G E \<lparr>scrape = False, search = Some []\<rparr> w)) = [Print Usage_help]
   \<and> filter is_embedding_call
         (new_events w (snd (main G E \<lparr>scrape = False, search = Some []\<rparr> w))) = []
   \<and> filter is_search_call
         (new_events w (snd (main G E \<lparr>scrape = False, search = Some []\<rparr> w))) = []"
  by (simp add: main_def truthy_def new_events_def)

end
